theory Spec2Isabelle
  imports Main
begin

section \<open>The JSON texts the service reads and writes\<close>

text \<open>
  \<^verbatim>\<open>ExtensionTipsService\<close> keeps two lists of strings in the storage service, as JSON texts:
  it writes them with \<^verbatim>\<open>JSON.stringify\<close> and reads them back with \<^verbatim>\<open>JSON.parse\<close>, casting
  the result to \<^verbatim>\<open>string[]\<close> without a check. The two built-ins are modelled on the texts
  this matters for. A string is a list of 8-bit characters, read as the code units
  U+0000 to U+00FF.

  \<^verbatim>\<open>JSON.parse\<close> has three outcomes here:
  \<^item> \<open>SyntaxError\<close>: the text is not JSON, and \<^verbatim>\<open>JSON.parse\<close> throws;
  \<^item> \<open>StringArray xs\<close>: the text is a JSON array of strings, and \<^verbatim>\<open>JSON.parse\<close> returns
    \<open>xs\<close>;
  \<^item> \<open>Undecided\<close>: the text starts a JSON value that is not an array of such strings
    (a number, an object, a nested array, a code unit above U+00FF). Whether
    \<^verbatim>\<open>JSON.parse\<close> throws or returns a value of another shape is not modelled.
\<close>

datatype parsed = SyntaxError | StringArray "string list" | Undecided

definition is_ws :: "char \<Rightarrow> bool" where
  "is_ws c \<longleftrightarrow> c = CHR 0x20 \<or> c = CHR 0x09 \<or> c = CHR 0x0A \<or> c = CHR 0x0D"

text \<open>The characters a JSON value can start with.\<close>

definition starts_value :: "char \<Rightarrow> bool" where
  "starts_value c \<longleftrightarrow> c = CHR 0x22 \<or> c \<in> set ''[{-0123456789tfn''"

definition hex_digit :: "char \<Rightarrow> nat option" where
  "hex_digit c =
     (let n = (of_char c :: nat) in
      if 48 \<le> n \<and> n \<le> 57 then Some (n - 48)
      else if 97 \<le> n \<and> n \<le> 102 then Some (n - 87)
      else if 65 \<le> n \<and> n \<le> 70 then Some (n - 55)
      else None)"

text \<open>The character after a backslash, \<^verbatim>\<open>u\<close> apart.\<close>

definition unescape :: "char \<Rightarrow> char option" where
  "unescape c =
     (if c = CHR 0x22 \<or> c = CHR 0x5C \<or> c = CHR ''/'' then Some c
      else if c = CHR ''b'' then Some (CHR 0x08)
      else if c = CHR ''f'' then Some (CHR 0x0C)
      else if c = CHR ''n'' then Some (CHR 0x0A)
      else if c = CHR ''r'' then Some (CHR 0x0D)
      else if c = CHR ''t'' then Some (CHR 0x09)
      else None)"

text \<open>
  The reader is a scanner over the characters of the text. Its positions: before the
  array, after the opening bracket, after a comma, inside a string literal, after a
  backslash, inside \<^verbatim>\<open>\uXXXX\<close> (the value read so far and the digits still to come),
  after a string literal, after the closing bracket, and stopped with an outcome.
\<close>

datatype pstate =
    PStart
  | PFirst
  | PNext "string list"
  | PChars "string list" string
  | PEsc "string list" string
  | PHex "string list" string nat nat
  | PAfter "string list"
  | PEnd "string list"
  | PStop parsed

fun scan :: "pstate \<Rightarrow> char \<Rightarrow> pstate" where
  "scan PStart c =
     (if is_ws c then PStart
      else if c = CHR 0x5B then PFirst
      else if starts_value c then PStop Undecided
      else PStop SyntaxError)"
| "scan PFirst c =
     (if is_ws c then PFirst
      else if c = CHR 0x5D then PEnd []
      else if c = CHR 0x22 then PChars [] []
      else if starts_value c then PStop Undecided
      else PStop SyntaxError)"
| "scan (PNext xs) c =
     (if is_ws c then PNext xs
      else if c = CHR 0x22 then PChars xs []
      else if starts_value c then PStop Undecided
      else PStop SyntaxError)"
| "scan (PChars xs acc) c =
     (if c = CHR 0x22 then PAfter (xs @ [acc])
      else if c = CHR 0x5C then PEsc xs acc
      else if (of_char c :: nat) < 0x20 then PStop SyntaxError
      else PChars xs (acc @ [c]))"
| "scan (PEsc xs acc) c =
     (if c = CHR ''u'' then PHex xs acc 0 4
      else case unescape c of
             None \<Rightarrow> PStop SyntaxError
           | Some d \<Rightarrow> PChars xs (acc @ [d]))"
| "scan (PHex xs acc v k) c =
     (case hex_digit c of
        None \<Rightarrow> PStop SyntaxError
      | Some d \<Rightarrow>
          if k \<le> 1 then
            (if 16 * v + d < 256 then PChars xs (acc @ [char_of (16 * v + d)])
             else PStop Undecided)
          else PHex xs acc (16 * v + d) (k - 1))"
| "scan (PAfter xs) c =
     (if is_ws c then PAfter xs
      else if c = CHR '','' then PNext xs
      else if c = CHR 0x5D then PEnd xs
      else PStop SyntaxError)"
| "scan (PEnd xs) c = (if is_ws c then PEnd xs else PStop SyntaxError)"
| "scan (PStop r) c = PStop r"

text \<open>At the end of the text: only a closed array is a value.\<close>

fun finish :: "pstate \<Rightarrow> parsed" where
  "finish (PEnd xs) = StringArray xs"
| "finish (PStop r) = r"
| "finish _ = SyntaxError"

definition JSON_parse :: "string \<Rightarrow> parsed" where
  "JSON_parse text = finish (foldl scan PStart text)"

text \<open>
  \<^verbatim>\<open>JSON.stringify\<close> of an array of strings: the quoted strings between brackets, separated
  by commas, with no white space. Inside the quotes, the quote and the backslash are
  escaped, and so is every code unit below U+0020, by its short form or as \<^verbatim>\<open>\u00xx\<close>.
\<close>

definition hex_char :: "nat \<Rightarrow> char" where
  "hex_char n = (if n < 10 then char_of (48 + n) else char_of (87 + n))"

definition escape :: "char \<Rightarrow> string" where
  "escape c =
     (if c = CHR 0x22 then [CHR 0x5C, CHR 0x22]
      else if c = CHR 0x5C then [CHR 0x5C, CHR 0x5C]
      else if c = CHR 0x08 then [CHR 0x5C, CHR ''b'']
      else if c = CHR 0x0C then [CHR 0x5C, CHR ''f'']
      else if c = CHR 0x0A then [CHR 0x5C, CHR ''n'']
      else if c = CHR 0x0D then [CHR 0x5C, CHR ''r'']
      else if c = CHR 0x09 then [CHR 0x5C, CHR ''t'']
      else if (of_char c :: nat) < 0x20 then
        [CHR 0x5C, CHR ''u'', CHR ''0'', CHR ''0'',
         hex_char ((of_char c :: nat) div 16), hex_char ((of_char c :: nat) mod 16)]
      else [c])"

definition quote :: "string \<Rightarrow> string" where
  "quote s = CHR 0x22 # concat (map escape s) @ [CHR 0x22]"

fun join_comma :: "string list \<Rightarrow> string" where
  "join_comma [] = []"
| "join_comma [x] = x"
| "join_comma (x # y # ys) = x @ CHR '','' # join_comma (y # ys)"

definition JSON_stringify :: "string list \<Rightarrow> string" where
  "JSON_stringify xs = CHR 0x5B # join_comma (map quote xs) @ [CHR 0x5D]"


section \<open>The collaborators of the service\<close>

text \<open>
  Modelled from the spec: the storage service (\<^verbatim>\<open>vs/platform/storage\<close>) is not among the
  sources. It is a key-value store with two scopes; \<^verbatim>\<open>get\<close> returns the text under a key or
  the default, \<^verbatim>\<open>store\<close> replaces it, and \<^verbatim>\<open>getBoolean\<close> reads a flag, which is true only
  when the text under the key is \<^verbatim>\<open>true\<close>. The store outlives the process: a restarted
  service reads what the last one wrote.
\<close>

datatype StorageScope = GLOBAL | WORKSPACE

type_synonym storage = "StorageScope \<Rightarrow> string \<rightharpoonup> string"

definition storageService_get :: "storage \<Rightarrow> string \<Rightarrow> StorageScope \<Rightarrow> string \<Rightarrow> string" where
  "storageService_get st key scope dflt = (case st scope key of None \<Rightarrow> dflt | Some v \<Rightarrow> v)"

definition storageService_getBoolean :: "storage \<Rightarrow> string \<Rightarrow> StorageScope \<Rightarrow> bool \<Rightarrow> bool" where
  "storageService_getBoolean st key scope dflt =
     (case st scope key of None \<Rightarrow> dflt | Some v \<Rightarrow> v = ''true'')"

definition storageService_store :: "storage \<Rightarrow> string \<Rightarrow> string \<Rightarrow> StorageScope \<Rightarrow> storage" where
  "storageService_store st key v scope = st(scope := (st scope)(key \<mapsto> v))"

text \<open>A document's URI, of which the service reads \<^verbatim>\<open>fsPath\<close>; an installed extension.\<close>

record URI =
  fsPath :: string

record manifest =
  publisher :: string
  name :: string

record local_extension =
  manifest :: manifest

text \<open>
  What the service is given at construction. \<^verbatim>\<open>product.extensionTips\<close> and
  \<^verbatim>\<open>product.extensionImportantTips\<close> are objects from extension id to glob pattern, listed
  in the order their keys are enumerated, and \<open>None\<close> when the product has none. The glob
  matcher \<^verbatim>\<open>match\<close> (\<^verbatim>\<open>vs/base/common/glob\<close>) is not among the sources: it is a parameter.
  \<open>recommendations_setting\<close> is \<^verbatim>\<open>recommendations\<close> of the extensions configuration, and
  \<open>getModels\<close> the URI of each model the model service already has (\<open>None\<close>: a model
  without URI).
\<close>

record env =
  isEnabled :: bool
  extensionTips :: "(string \<times> string) list option"
  extensionImportantTips :: "(string \<times> string) list option"
  match :: "string \<Rightarrow> string \<Rightarrow> bool"
  recommendations_setting :: "string list option"
  getModels :: "URI option list"

section \<open>The service\<close>

text \<open>
  The fields of \<^verbatim>\<open>ExtensionTipsService\<close>. \<^verbatim>\<open>_recommendations\<close> is an object used as a set:
  its keys, in the order they were first set. \<^verbatim>\<open>_availableRecommendations\<close> maps a pattern
  to its ids, in the order the patterns were first seen. (JavaScript enumerates keys that
  are array indices before the others; extension ids and glob patterns are not.) The two
  fields about important recommendations are \<open>None\<close> until \<^verbatim>\<open>_suggestTips\<close> assigns them,
  and \<open>disposables\<close> holds the subscription to \<^verbatim>\<open>onModelAdded\<close> once it is made.
\<close>

datatype subscription = OnModelAdded

record ExtensionTipsService =
  recommendations :: "string list"
  availableRecommendations :: "(string \<times> string list) list"
  importantRecommendations :: "(string \<times> string) list option"
  importantRecommendationsIgnoreList :: "string list option"
  disposables :: "subscription list"

text \<open>
  The messages shown (\<^verbatim>\<open>reallyRecommended\<close> names its extension id), and the promises of
  \<^verbatim>\<open>getInstalled\<close> that have not settled yet, each with what its callback closes over.
\<close>

datatype notification = ReallyRecommended string | WorkspaceRecommended

datatype query = SuggestQuery URI | WorkspaceQuery "string list"

text \<open>
  One process: the service, the store, the messages shown so far, the callbacks given to
  \<^verbatim>\<open>setImmediate\<close> that have not run yet, and the pending queries.
\<close>

record world =
  service :: ExtensionTipsService
  storage :: storage
  shown :: "notification list"
  immediates :: "URI list"
  queries :: "query list"

definition getWorkspaceRecommendations :: "env \<Rightarrow> string list" where
  "getWorkspaceRecommendations e =
     (case recommendations_setting e of None \<Rightarrow> [] | Some ids \<Rightarrow> ids)"

definition getRecommendations :: "world \<Rightarrow> string list" where
  "getRecommendations w = recommendations (service w)"

text \<open>\<^verbatim>\<open>this._recommendations[id] = true\<close>: a key that is there keeps its place.\<close>

definition set_true :: "string list \<Rightarrow> string \<Rightarrow> string list" where
  "set_true keys eid = (if eid \<in> set keys then keys else keys @ [eid])"

text \<open>The body of the loop that groups the ids by pattern.\<close>

definition group_tip :: "(string \<times> string list) list \<Rightarrow> string \<times> string \<Rightarrow> (string \<times> string list) list" where
  "group_tip avail entry =
     (case entry of (eid, pattern) \<Rightarrow>
        (case map_of avail pattern of
           None \<Rightarrow> avail @ [(pattern, [eid])]
         | Some ids \<Rightarrow> map (\<lambda>(p, ids'). if p = pattern then (p, ids' @ [eid]) else (p, ids')) avail))"

text \<open>
  \<^verbatim>\<open>_suggest\<close> returns at once: without a URI it does nothing, otherwise it hands its work
  to \<^verbatim>\<open>setImmediate\<close>.
\<close>

definition suggest :: "URI option \<Rightarrow> world \<Rightarrow> world" where
  "suggest uri w =
     (case uri of
        None \<Rightarrow> w
      | Some u \<Rightarrow> w\<lparr>immediates := immediates w @ [u]\<rparr>)"

text \<open>
  \<^verbatim>\<open>_suggestTips\<close>. It does nothing without \<^verbatim>\<open>product.extensionTips\<close>. Otherwise it reads
  the ignore list and the recommendations from the store, builds the pattern index,
  subscribes to \<^verbatim>\<open>onModelAdded\<close> and calls \<^verbatim>\<open>_suggest\<close> for the models there are. It throws
  what \<^verbatim>\<open>JSON.parse\<close> throws; on a stored text whose outcome is \<open>Undecided\<close> the model
  stops with \<open>Unmodelled_stored_value\<close>.
\<close>

datatype error = JSON_SyntaxError | Unmodelled_stored_value

definition suggestTips :: "env \<Rightarrow> world \<Rightarrow> error + world" where
  "suggestTips e w =
     (case extensionTips e of
        None \<Rightarrow> Inr w
      | Some tips \<Rightarrow>
          (case JSON_parse (storageService_get (storage w)
                  ''extensionsAssistant/importantRecommendationsIgnore'' GLOBAL ''[]'') of
             SyntaxError \<Rightarrow> Inl JSON_SyntaxError
           | Undecided \<Rightarrow> Inl Unmodelled_stored_value
           | StringArray ignoreList \<Rightarrow>
               (case JSON_parse (storageService_get (storage w)
                       ''extensionsAssistant/recommendations'' GLOBAL ''[]'') of
                  SyntaxError \<Rightarrow> Inl JSON_SyntaxError
                | Undecided \<Rightarrow> Inl Unmodelled_stored_value
                | StringArray storedRecommendations \<Rightarrow>
                    Inr (foldl (\<lambda>w' uri. suggest uri w')
                          (w\<lparr>service := (service w)
                               \<lparr>recommendations :=
                                  foldl set_true (recommendations (service w)) storedRecommendations,
                                availableRecommendations := foldl group_tip [] tips,
                                importantRecommendations :=
                                  Some (case extensionImportantTips e of None \<Rightarrow> [] | Some t \<Rightarrow> t),
                                importantRecommendationsIgnoreList := Some ignoreList,
                                disposables := disposables (service w) @ [OnModelAdded]\<rparr>\<rparr>)
                          (getModels e)))))"

text \<open>
  The callback that \<^verbatim>\<open>_suggest\<close> gives to \<^verbatim>\<open>setImmediate\<close>, up to the call of
  \<^verbatim>\<open>getInstalled\<close>: match every pattern against the path, store the keys, ask for the
  installed extensions. \<^verbatim>\<open>forEach\<close> (\<^verbatim>\<open>vs/base/common/collections\<close>) calls its callback on
  every entry of the object, in the order of the keys.
\<close>

definition suggest_entry :: "env \<Rightarrow> URI \<Rightarrow> string list \<Rightarrow> string \<times> string list \<Rightarrow> string list" where
  "suggest_entry e uri recs entry =
     (case entry of (pattern, ids) \<Rightarrow>
        if match e pattern (fsPath uri) then foldl set_true recs ids else recs)"

definition suggest_immediate :: "env \<Rightarrow> URI \<Rightarrow> world \<Rightarrow> world" where
  "suggest_immediate e uri w =
     (let recs = foldl (suggest_entry e uri)
                  (recommendations (service w)) (availableRecommendations (service w))
      in w\<lparr>service := (service w)\<lparr>recommendations := recs\<rparr>,
           storage := storageService_store (storage w)
                        ''extensionsAssistant/recommendations'' (JSON_stringify recs) GLOBAL,
           queries := queries w @ [SuggestQuery uri]\<rparr>)"

text \<open>\<^verbatim>\<open>Array.prototype.indexOf\<close>: the first position of \<open>x\<close>, or \<open>-1\<close>.\<close>

fun indexOf :: "string list \<Rightarrow> string \<Rightarrow> int" where
  "indexOf [] x = -1"
| "indexOf (y # ys) x = (if y = x then 0 else let i = indexOf ys x in if i = -1 then -1 else i + 1)"

text \<open>The filter both gates apply: the ids that no installed extension has.\<close>

definition not_installed :: "local_extension list \<Rightarrow> string list \<Rightarrow> string list" where
  "not_installed installed ids =
     filter (\<lambda>eid. list_all (\<lambda>ext. publisher (manifest ext) @ ''.'' @ name (manifest ext) \<noteq> eid) installed) ids"

text \<open>
  The callback of \<^verbatim>\<open>getInstalled\<close> in \<^verbatim>\<open>_suggest\<close>. It runs when the promise is fulfilled.
  With a field still undefined the callback throws before it shows anything.
\<close>

definition suggest_installed :: "env \<Rightarrow> URI \<Rightarrow> local_extension list \<Rightarrow> world \<Rightarrow> world" where
  "suggest_installed e uri installed w =
     (case importantRecommendations (service w) of
        None \<Rightarrow> w
      | Some important \<Rightarrow>
          (case importantRecommendationsIgnoreList (service w) of
             None \<Rightarrow> w
           | Some ignoreList \<Rightarrow>
               w\<lparr>shown := shown w @
                    map ReallyRecommended
                      (filter (\<lambda>eid. case map_of important eid of
                                      None \<Rightarrow> False
                                    | Some pattern \<Rightarrow> match e pattern (fsPath uri))
                        (not_installed installed
                          (filter (\<lambda>eid. indexOf ignoreList eid = -1) (map fst important))))\<rparr>))"

text \<open>
  The action \<^verbatim>\<open>neverShowAgain\<close> of a \<^verbatim>\<open>reallyRecommended\<close> message: it appends the id to
  the ignore list and stores the list. Without a list, \<^verbatim>\<open>push\<close> throws and nothing changes.
\<close>

definition neverAgainAction :: "string \<Rightarrow> world \<Rightarrow> world" where
  "neverAgainAction eid w =
     (case importantRecommendationsIgnoreList (service w) of
        None \<Rightarrow> w
      | Some ignoreList \<Rightarrow>
          w\<lparr>service := (service w)\<lparr>importantRecommendationsIgnoreList := Some (ignoreList @ [eid])\<rparr>,
            storage := storageService_store (storage w)
                         ''extensionsAssistant/importantRecommendationsIgnore''
                         (JSON_stringify (ignoreList @ [eid])) GLOBAL\<rparr>)"

text \<open>
  \<^verbatim>\<open>_suggestWorkspaceRecommendations\<close>: nothing when the workspace has the dismissal flag
  or no recommendation is configured, otherwise a query of the installed extensions.
\<close>

definition suggestWorkspaceRecommendations :: "env \<Rightarrow> world \<Rightarrow> world" where
  "suggestWorkspaceRecommendations e w =
     (if storageService_getBoolean (storage w)
           ''extensionsAssistant/workspaceRecommendationsIgnore'' WORKSPACE False
      then w
      else if getWorkspaceRecommendations e = [] then w
      else w\<lparr>queries := queries w @ [WorkspaceQuery (getWorkspaceRecommendations e)]\<rparr>)"

text \<open>The callback of \<^verbatim>\<open>getInstalled\<close> in \<^verbatim>\<open>_suggestWorkspaceRecommendations\<close>.\<close>

definition workspace_installed :: "string list \<Rightarrow> local_extension list \<Rightarrow> world \<Rightarrow> world" where
  "workspace_installed allRecommendations installed w =
     (if not_installed installed allRecommendations = [] then w
      else w\<lparr>shown := shown w @ [WorkspaceRecommended]\<rparr>)"

text \<open>The action \<^verbatim>\<open>neverShowAgain\<close> of the \<^verbatim>\<open>workspaceRecommended\<close> message.\<close>

definition workspaceNeverAgainAction :: "world \<Rightarrow> world" where
  "workspaceNeverAgainAction w =
     w\<lparr>storage := storageService_store (storage w)
                    ''extensionsAssistant/workspaceRecommendationsIgnore'' ''true'' WORKSPACE\<rparr>"

text \<open>
  The constructor, in a process that starts on the store \<open>st\<close>. It throws when
  \<^verbatim>\<open>_suggestTips\<close> does.
\<close>

definition fresh :: "storage \<Rightarrow> world" where
  "fresh st =
     \<lparr>service = \<lparr>recommendations = [], availableRecommendations = [],
                 importantRecommendations = None, importantRecommendationsIgnoreList = None,
                 disposables = []\<rparr>,
      storage = st, shown = [], immediates = [], queries = []\<rparr>"

definition constructor :: "env \<Rightarrow> storage \<Rightarrow> error + world" where
  "constructor e st =
     (if \<not> isEnabled e then Inr (fresh st)
      else case suggestTips e (fresh st) of
             Inl err \<Rightarrow> Inl err
           | Inr w \<Rightarrow> Inr (suggestWorkspaceRecommendations e w))"

text \<open>
  What happens to a process afterwards, one event at a time: the model service announces
  a model; the oldest \<^verbatim>\<open>setImmediate\<close> callback runs; a pending query settles, fulfilled
  with the installed extensions or rejected (\<open>None\<close>: \<^verbatim>\<open>done\<close> has no error handler, so
  the callback does not run); the user runs \<^verbatim>\<open>neverShowAgain\<close> of a message shown; the
  service is disposed.
\<close>

datatype event =
    ModelAdded "URI option"
  | Immediate
  | Settled nat "local_extension list option"
  | NeverShowAgain nat
  | Dispose

fun step :: "env \<Rightarrow> world \<Rightarrow> event \<Rightarrow> world" where
  "step e w (ModelAdded uri) =
     (if OnModelAdded \<in> set (disposables (service w)) then suggest uri w else w)"
| "step e w Immediate =
     (case immediates w of
        [] \<Rightarrow> w
      | uri # rest \<Rightarrow> suggest_immediate e uri (w\<lparr>immediates := rest\<rparr>))"
| "step e w (Settled n result) =
     (if n < length (queries w) then
        (case result of
           None \<Rightarrow> w\<lparr>queries := take n (queries w) @ drop (Suc n) (queries w)\<rparr>
         | Some installed \<Rightarrow>
             (case queries w ! n of
                SuggestQuery uri \<Rightarrow>
                  suggest_installed e uri installed
                    (w\<lparr>queries := take n (queries w) @ drop (Suc n) (queries w)\<rparr>)
              | WorkspaceQuery allRecommendations \<Rightarrow>
                  workspace_installed allRecommendations installed
                    (w\<lparr>queries := take n (queries w) @ drop (Suc n) (queries w)\<rparr>)))
      else w)"
| "step e w (NeverShowAgain n) =
     (if n < length (shown w) then
        (case shown w ! n of
           ReallyRecommended eid \<Rightarrow> neverAgainAction eid w
         | WorkspaceRecommended \<Rightarrow> workspaceNeverAgainAction w)
      else w)"
| "step e w Dispose = w\<lparr>service := (service w)\<lparr>disposables := []\<rparr>\<rparr>"

definition run :: "env \<Rightarrow> world \<Rightarrow> event list \<Rightarrow> world" where
  "run e w evs = foldl (step e) w evs"

section \<open>Notions used to state the properties\<close>

text \<open>The messages shown while the events \<open>evs\<close> happen.\<close>

definition emitted :: "env \<Rightarrow> world \<Rightarrow> event list \<Rightarrow> notification list" where
  "emitted e w evs = drop (length (shown w)) (shown (run e w evs))"

text \<open>
  The workspace messages shown so far, and the workspace checks whose query is pending:
  together, a bound on the workspace messages a process can still come to show.
\<close>

fun is_workspace_query :: "query \<Rightarrow> bool" where
  "is_workspace_query (WorkspaceQuery allRecommendations) = True"
| "is_workspace_query (SuggestQuery uri) = False"

definition workspace_budget :: "world \<Rightarrow> nat" where
  "workspace_budget w =
     count_list (shown w) WorkspaceRecommended + length (filter is_workspace_query (queries w))"

text \<open>
  An id is suppressed when the ignore list in memory has it (or there is no list: then
  nothing is shown at all); it is stored when the ignore list in the store has it.
\<close>

definition suppressed :: "string \<Rightarrow> world \<Rightarrow> bool" where
  "suppressed eid w \<longleftrightarrow>
     (case importantRecommendationsIgnoreList (service w) of
        None \<Rightarrow> True
      | Some ignoreList \<Rightarrow> eid \<in> set ignoreList)"

definition stored_ignore :: "string \<Rightarrow> storage \<Rightarrow> bool" where
  "stored_ignore eid st \<longleftrightarrow>
     (case JSON_parse (storageService_get st
             ''extensionsAssistant/importantRecommendationsIgnore'' GLOBAL ''[]'') of
        StringArray xs \<Rightarrow> eid \<in> set xs
      | _ \<Rightarrow> False)"

text \<open>A service that \<^verbatim>\<open>_suggestTips\<close> left untouched, with workspace checks only.\<close>

definition inert :: "world \<Rightarrow> bool" where
  "inert w \<longleftrightarrow>
     recommendations (service w) = [] \<and> availableRecommendations (service w) = [] \<and>
     importantRecommendations (service w) = None \<and>
     importantRecommendationsIgnoreList (service w) = None \<and>
     disposables (service w) = [] \<and> immediates w = [] \<and>
     list_all is_workspace_query (queries w)"

text \<open>
  The stored recommendations cover \<open>loaded\<close>, and so do those in memory, unless the
  service listens to nothing and has nothing scheduled.
\<close>

definition snapshot_covers :: "string list \<Rightarrow> world \<Rightarrow> bool" where
  "snapshot_covers loaded w \<longleftrightarrow>
     (case JSON_parse (storageService_get (storage w)
             ''extensionsAssistant/recommendations'' GLOBAL ''[]'') of
        StringArray snapshot \<Rightarrow> set loaded \<subseteq> set snapshot
      | _ \<Rightarrow> False)
     \<and> (set loaded \<subseteq> set (recommendations (service w))
        \<or> disposables (service w) = [] \<and> immediates w = [])"

section \<open>Example data\<close>

text \<open>
  A product with one tip and one important tip, a workspace with two recommendations, and
  the glob matcher on the patterns and paths of the examples. \<open>example_world\<close> is the
  process that the constructor starts on the empty store.
\<close>

definition example_match :: "string \<Rightarrow> string \<Rightarrow> bool" where
  "example_match pattern path \<longleftrightarrow>
     pattern = ''**/*.md'' \<and> path = ''README.md'' \<or>
     pattern = ''**/*.ts'' \<and> (path = ''a.ts'' \<or> path = ''b.ts'')"

definition example_env :: env where
  "example_env =
     \<lparr>isEnabled = True,
      extensionTips = Some [(''foo.bar'', ''**/*.md'')],
      extensionImportantTips = Some [(''foo.bar'', ''**/*.ts'')],
      match = example_match,
      recommendations_setting = Some [''pub.ext1'', ''pub.ext2''],
      getModels = []\<rparr>"

definition empty_store :: storage where
  "empty_store = (\<lambda>scope. Map.empty)"

definition example_world :: world where
  "example_world =
     \<lparr>service = \<lparr>recommendations = [],
                 availableRecommendations = [(''**/*.md'', [''foo.bar''])],
                 importantRecommendations = Some [(''foo.bar'', ''**/*.ts'')],
                 importantRecommendationsIgnoreList = Some [],
                 disposables = [OnModelAdded]\<rparr>,
      storage = empty_store, shown = [], immediates = [],
      queries = [WorkspaceQuery [''pub.ext1'', ''pub.ext2'']]\<rparr>"

definition readme :: URI where "readme = \<lparr>fsPath = ''README.md''\<rparr>"
definition a_ts :: URI where "a_ts = \<lparr>fsPath = ''a.ts''\<rparr>"
definition b_ts :: URI where "b_ts = \<lparr>fsPath = ''b.ts''\<rparr>"

definition ext1 :: local_extension where
  "ext1 = \<lparr>manifest = \<lparr>publisher = ''pub'', name = ''ext1''\<rparr>\<rparr>"




definition dismissed_store :: storage where
  "dismissed_store =
     empty_store(WORKSPACE := [''extensionsAssistant/workspaceRecommendationsIgnore'' \<mapsto> ''true''])"

definition seeded_store :: storage where
  "seeded_store =
     empty_store(GLOBAL := [''extensionsAssistant/recommendations'' \<mapsto> JSON_stringify [''old.ext'']])"

definition no_tips_env :: env where
  "no_tips_env = example_env\<lparr>extensionTips := None\<rparr>"

definition no_tips_world :: world where
  "no_tips_world = (fresh empty_store)\<lparr>queries := [WorkspaceQuery [''pub.ext1'', ''pub.ext2'']]\<rparr>"

definition empty_tips_env :: env where
  "empty_tips_env = example_env\<lparr>extensionTips := Some []\<rparr>"

definition empty_tips_world :: world where
  "empty_tips_world = example_world\<lparr>service := (service example_world)\<lparr>availableRecommendations := []\<rparr>\<rparr>"

definition notified_world :: world where
  "notified_world = run example_env example_world [ModelAdded (Some a_ts), Immediate, Settled 1 (Some [])]"

definition restarted_world :: world where
  "restarted_world =
     example_world
       \<lparr>service := (service example_world)\<lparr>importantRecommendationsIgnoreList := Some [''foo.bar'']\<rparr>,
        storage := storage (step example_env notified_world (NeverShowAgain 0))\<rparr>"

definition dismissed_world :: world where
  "dismissed_world = example_world\<lparr>storage := dismissed_store, queries := []\<rparr>"

definition disabled_env :: env where
  "disabled_env = example_env\<lparr>isEnabled := False\<rparr>"

definition seeded_world :: world where
  "seeded_world =
     example_world\<lparr>service := (service example_world)\<lparr>recommendations := [''old.ext'']\<rparr>,
                   storage := seeded_store\<rparr>"

section \<open>What is written is read back\<close>

text \<open>
  \<^verbatim>\<open>JSON.parse\<close> of \<^verbatim>\<open>JSON.stringify\<close> of a list of strings is that list: a restarted
  service reads the lists the last one stored.
\<close>

lemma hex_digit_hex_char: "m < 16 \<Longrightarrow> hex_digit (hex_char m) = Some m"
  by (auto simp add: hex_digit_def hex_char_def Let_def)

lemma scan_u00:
  assumes "n < 32"
  shows "foldl scan (PHex xs acc 0 4) [CHR ''0'', CHR ''0'', hex_char (n div 16), hex_char (n mod 16)]
         = PChars xs (acc @ [char_of n])"
proof -
  have a: "hex_digit (hex_char (n div 16)) = Some (n div 16)"
    using assms by (intro hex_digit_hex_char) simp
  have b: "hex_digit (hex_char (n mod 16)) = Some (n mod 16)"
    by (intro hex_digit_hex_char) simp
  have c: "hex_digit CHR ''0'' = Some 0" by (simp add: hex_digit_def)
  have d: "16 * (n div 16) + n mod 16 < 256" using assms by simp
  show ?thesis using d by (simp add: a b c)
qed

lemma scan_escape: "foldl scan (PChars xs acc) (escape c) = PChars xs (acc @ [c])"
proof (cases "(of_char c :: nat) < 0x20")
  case True
  then show ?thesis
    using scan_u00 [of "of_char c" xs acc]
    by (auto simp add: escape_def unescape_def)
next
  case False
  then show ?thesis by (auto simp add: escape_def unescape_def)
qed

lemma scan_escaped: "foldl scan (PChars xs acc) (concat (map escape s)) = PChars xs (acc @ s)"
  by (induction s arbitrary: acc) (simp_all add: scan_escape)

lemma scan_quote_first: "foldl scan PFirst (quote y) = PAfter [y]"
  by (simp add: quote_def scan_escaped is_ws_def)

lemma scan_quote_next: "foldl scan (PAfter xs) (CHR '','' # quote y) = PAfter (xs @ [y])"
  by (simp add: quote_def scan_escaped is_ws_def)

lemma scan_rest: "foldl scan (PAfter xs) (concat (map (\<lambda>z. CHR '','' # quote z) ys)) = PAfter (xs @ ys)"
proof (induction ys arbitrary: xs)
  case Nil then show ?case by simp
next
  case (Cons y ys)
  have "foldl scan (PAfter xs) (concat (map (\<lambda>z. CHR '','' # quote z) (y # ys)))
        = foldl scan (foldl scan (PAfter xs) (CHR '','' # quote y)) (concat (map (\<lambda>z. CHR '','' # quote z) ys))"
    by (simp only: list.map concat.simps foldl_append)
  then show ?case by (simp only: scan_quote_next Cons.IH) simp
qed

lemma join_comma_quote:
  "join_comma (map quote (y # ys)) = quote y @ concat (map (\<lambda>z. CHR '','' # quote z) ys)"
  by (induction ys arbitrary: y) simp_all

lemma JSON_roundtrip: "JSON_parse (JSON_stringify xs) = StringArray xs"
proof (cases xs)
  case Nil
  then show ?thesis by (simp add: JSON_parse_def JSON_stringify_def is_ws_def)
next
  case (Cons y ys)
  have "foldl scan PFirst (join_comma (map quote (y # ys))) = PAfter (y # ys)"
    by (simp only: join_comma_quote foldl_append scan_quote_first scan_rest) simp
  then show ?thesis using Cons
    by (simp add: JSON_parse_def JSON_stringify_def is_ws_def del: list.map)
qed

lemma JSON_parse_default: "JSON_parse ''[]'' = StringArray []"
  by (simp add: JSON_parse_def is_ws_def)

section \<open>The set of recommendations\<close>

lemma indexOf_ge: "- 1 \<le> indexOf xs x"
  by (induction xs) (simp_all add: Let_def)

lemma indexOf_found: "x \<in> set xs \<Longrightarrow> 0 \<le> indexOf xs x"
  by (induction xs) (auto simp add: Let_def)

lemma indexOf_absent: "indexOf xs x = - 1 \<longleftrightarrow> x \<notin> set xs"
proof (induction xs)
  case Nil then show ?case by simp
next
  case (Cons y ys)
  then show ?case using indexOf_found [of x ys] by (auto simp add: Let_def)
qed

lemma set_set_true: "set (set_true keys x) = insert x (set keys)"
  by (auto simp add: set_true_def)

lemma set_foldl_set_true: "set (foldl set_true keys ids) = set keys \<union> set ids"
  by (induction ids arbitrary: keys) (auto simp add: set_set_true)

lemma foldl_set_true_same: "set ids \<subseteq> set keys \<Longrightarrow> foldl set_true keys ids = keys"
  by (induction ids arbitrary: keys) (auto simp add: set_true_def)

lemma suggest_entry_mono: "set recs \<subseteq> set (suggest_entry e uri recs entry)"
  by (cases entry) (auto simp add: suggest_entry_def set_foldl_set_true)

lemma suggest_entries_mono: "set recs \<subseteq> set (foldl (suggest_entry e uri) recs avail)"
proof (induction avail arbitrary: recs)
  case Nil then show ?case by simp
next
  case (Cons a avail)
  show ?case using suggest_entry_mono [of recs e uri a] Cons.IH [of "suggest_entry e uri recs a"]
    by auto
qed

lemma suggest_entries_matched:
  "(pattern, ids) \<in> set avail \<Longrightarrow> match e pattern (fsPath uri) \<Longrightarrow>
   set ids \<subseteq> set (foldl (suggest_entry e uri) recs avail)"
proof (induction avail arbitrary: recs)
  case Nil then show ?case by simp
next
  case (Cons a avail)
  show ?case
  proof (cases "a = (pattern, ids)")
    case True
    have "set ids \<subseteq> set (suggest_entry e uri recs a)"
      using True Cons.prems(2) by (simp add: suggest_entry_def set_foldl_set_true)
    then show ?thesis
      using suggest_entries_mono [of "suggest_entry e uri recs a" e uri avail] by auto
  next
    case False
    then have "(pattern, ids) \<in> set avail" using Cons.prems(1) by simp
    then show ?thesis using Cons.IH Cons.prems(2) by simp
  qed
qed

lemma suggest_entries_same:
  "\<forall>(pattern, ids) \<in> set avail. match e pattern path \<longrightarrow> set ids \<subseteq> set recs \<Longrightarrow>
   fsPath uri = path \<Longrightarrow> foldl (suggest_entry e uri) recs avail = recs"
  by (induction avail arbitrary: recs) (auto simp add: suggest_entry_def foldl_set_true_same)

section \<open>What an event changes\<close>

lemmas event_defs = suggest_def suggest_immediate_def suggest_installed_def neverAgainAction_def
  workspace_installed_def workspaceNeverAgainAction_def Let_def

lemma step_available:
  "availableRecommendations (service (step e w ev)) = availableRecommendations (service w)"
  by (cases ev) (auto simp add: event_defs split: option.splits list.splits query.splits notification.splits)

lemma run_available:
  "availableRecommendations (service (run e w evs)) = availableRecommendations (service w)"
  unfolding run_def by (induction evs arbitrary: w) (simp_all add: step_available)

lemma step_recommendations_mono:
  "set (recommendations (service w)) \<subseteq> set (recommendations (service (step e w ev)))"
  using suggest_entries_mono
  by (cases ev) (auto simp add: event_defs split: option.splits list.splits query.splits notification.splits)

lemma run_recommendations_mono:
  "set (recommendations (service w)) \<subseteq> set (recommendations (service (run e w evs)))"
  unfolding run_def
proof (induction evs arbitrary: w)
  case Nil then show ?case by simp
next
  case (Cons ev evs)
  show ?case using step_recommendations_mono [of w e ev] Cons.IH [of "step e w ev"] by auto
qed

lemma run_append: "run e w (evs @ evs') = run e (run e w evs) evs'"
  by (simp add: run_def)

lemma step_shown: "\<exists>new. shown (step e w ev) = shown w @ new"
  by (cases ev)
     (auto simp add: event_defs split: option.splits list.splits query.splits notification.splits)

lemma run_shown: "\<exists>new. shown (run e w evs) = shown w @ new"
  unfolding run_def
proof (induction evs arbitrary: w)
  case Nil then show ?case by simp
next
  case (Cons ev evs)
  obtain a where a: "shown (step e w ev) = shown w @ a" using step_shown by blast
  obtain b where "shown (foldl (step e) (step e w ev) evs) = shown (step e w ev) @ b"
    using Cons.IH by blast
  then show ?case using a by simp
qed

lemma shown_emitted: "shown (run e w evs) = shown w @ emitted e w evs"
  using run_shown [of e w evs] by (auto simp add: emitted_def)

lemma emitted_Cons:
  "emitted e w (ev # evs) = drop (length (shown w)) (shown (step e w ev)) @ emitted e (step e w ev) evs"
proof -
  obtain a where a: "shown (step e w ev) = shown w @ a" using step_shown by blast
  obtain b where b: "shown (run e (step e w ev) evs) = shown (step e w ev) @ b"
    using run_shown by blast
  have "run e w (ev # evs) = run e (step e w ev) evs" by (simp add: run_def)
  then show ?thesis using a b by (simp add: emitted_def)
qed

lemma storage_keys [simp]:
  "storageService_get (storageService_store st k v scope) k scope d = v"
  "k' \<noteq> k \<Longrightarrow> storageService_get (storageService_store st k v scope) k' scope' d = storageService_get st k' scope' d"
  "scope' \<noteq> scope \<Longrightarrow> storageService_get (storageService_store st k v scope) k' scope' d = storageService_get st k' scope' d"
  by (auto simp add: storageService_get_def storageService_store_def)

lemma suggest_models:
  "service (foldl (\<lambda>w' uri. suggest uri w') w uris) = service w
   \<and> storage (foldl (\<lambda>w' uri. suggest uri w') w uris) = storage w
   \<and> shown (foldl (\<lambda>w' uri. suggest uri w') w uris) = shown w
   \<and> queries (foldl (\<lambda>w' uri. suggest uri w') w uris) = queries w"
  by (induction uris arbitrary: w) (auto simp add: suggest_def split: option.splits)

lemma suggestWorkspaceRecommendations_same:
  "service (suggestWorkspaceRecommendations e w) = service w
   \<and> storage (suggestWorkspaceRecommendations e w) = storage w
   \<and> shown (suggestWorkspaceRecommendations e w) = shown w
   \<and> immediates (suggestWorkspaceRecommendations e w) = immediates w"
  by (simp add: suggestWorkspaceRecommendations_def)

lemma constructor_shown: "constructor e st = Inr w \<Longrightarrow> shown w = [] \<and> storage w = st"
  by (auto simp add: constructor_def suggestTips_def fresh_def suggest_models
        suggestWorkspaceRecommendations_same split: if_splits option.splits parsed.splits sum.splits)

lemma constructor_suppressed:
  assumes "constructor e st = Inr w" and "stored_ignore eid st"
  shows "suppressed eid w"
  using assms
  by (auto simp add: constructor_def suggestTips_def fresh_def suggest_models stored_ignore_def
        suppressed_def suggestWorkspaceRecommendations_same
        split: if_splits option.splits parsed.splits sum.splits)

section \<open>Suppressed ids\<close>

lemma step_suppressed:
  "suppressed eid w \<Longrightarrow> suppressed eid (step e w ev)"
  by (cases ev)
     (auto simp add: suppressed_def event_defs
        split: option.splits list.splits query.splits notification.splits)

lemma run_suppressed: "suppressed eid w \<Longrightarrow> suppressed eid (run e w evs)"
  unfolding run_def by (induction evs arbitrary: w) (simp_all add: step_suppressed)

lemma step_suppressed_new:
  assumes "suppressed eid w"
  shows "ReallyRecommended eid \<notin> set (drop (length (shown w)) (shown (step e w ev)))"
proof (cases ev)
  case (Settled n result)
  show ?thesis
    using assms Settled
    by (auto simp add: suppressed_def suggest_installed_def indexOf_absent not_installed_def
          workspace_installed_def split: option.splits query.splits)
qed (use assms in \<open>auto simp add: event_defs split: option.splits list.splits notification.splits\<close>)

lemma emitted_suppressed:
  "suppressed eid w \<Longrightarrow> ReallyRecommended eid \<notin> set (emitted e w evs)"
proof (induction evs arbitrary: w)
  case Nil then show ?case by (simp add: emitted_def run_def)
next
  case (Cons ev evs)
  show ?case
    using step_suppressed_new [OF Cons.prems, of e ev]
      Cons.IH [OF step_suppressed [OF Cons.prems, of e ev]]
    by (simp add: emitted_Cons)
qed

lemma step_stored_ignore:
  assumes "suppressed eid w" and "stored_ignore eid (storage w)"
  shows "stored_ignore eid (storage (step e w ev))"
proof (cases ev)
  case (NeverShowAgain n)
  show ?thesis
    using assms NeverShowAgain
    by (auto simp add: suppressed_def stored_ignore_def neverAgainAction_def JSON_roundtrip
          workspaceNeverAgainAction_def split: option.splits notification.splits)
next
  case Immediate
  show ?thesis
    using assms Immediate
    by (auto simp add: stored_ignore_def suggest_immediate_def Let_def split: list.splits)
qed (use assms in \<open>auto simp add: event_defs split: option.splits query.splits\<close>)

lemma run_stored_ignore:
  "suppressed eid w \<Longrightarrow> stored_ignore eid (storage w) \<Longrightarrow> stored_ignore eid (storage (run e w evs))"
  unfolding run_def
  by (induction evs arbitrary: w) (simp_all add: step_suppressed step_stored_ignore)

section \<open>Workspace messages\<close>

lemma filter_remove_nth:
  assumes "n < length qs"
  shows "length (filter P (take n qs @ drop (Suc n) qs)) + (if P (qs ! n) then 1 else 0)
         = length (filter P qs)"
proof -
  have "filter P qs = filter P (take n qs @ qs ! n # drop (Suc n) qs)"
    using assms by (simp add: id_take_nth_drop [symmetric])
  then show ?thesis by simp
qed

lemma count_really [simp]: "count_list (map ReallyRecommended ids) WorkspaceRecommended = 0"
  by (induction ids) simp_all

lemma step_workspace_budget: "workspace_budget (step e w ev) \<le> workspace_budget w"
proof (cases ev)
  case (Settled n result)
  show ?thesis
  proof (cases "n < length (queries w)")
    case True
    show ?thesis
      using Settled True filter_remove_nth [OF True, of is_workspace_query]
      by (cases result; cases "queries w ! n")
         (auto simp add: workspace_budget_def suggest_installed_def workspace_installed_def
            split: option.splits if_splits)
  next
    case False
    then show ?thesis using Settled by simp
  qed
qed (auto simp add: workspace_budget_def event_defs split: option.splits list.splits notification.splits)

lemma run_workspace_budget: "workspace_budget (run e w evs) \<le> workspace_budget w"
  unfolding run_def
proof (induction evs arbitrary: w)
  case Nil then show ?case by simp
next
  case (Cons ev evs)
  show ?case using step_workspace_budget [of e w ev] Cons.IH [of "step e w ev"] by simp
qed

lemma suggestTips_queries: "suggestTips e w = Inr w' \<Longrightarrow> queries w' = queries w \<and> shown w' = shown w \<and> storage w' = storage w"
  by (auto simp add: suggestTips_def suggest_models split: option.splits parsed.splits)

lemma constructor_workspace_budget:
  assumes "constructor e st = Inr w"
  shows "workspace_budget w \<le> 1"
    and "storageService_getBoolean st ''extensionsAssistant/workspaceRecommendationsIgnore'' WORKSPACE False
         \<Longrightarrow> workspace_budget w = 0"
  using assms suggestTips_queries [of e "fresh st"]
  by (auto simp add: constructor_def workspace_budget_def suggestWorkspaceRecommendations_def fresh_def
        split: if_splits sum.splits)

lemma not_installed_excludes:
  "ext \<in> set installed \<Longrightarrow> publisher (manifest ext) @ ''.'' @ name (manifest ext) = X \<Longrightarrow>
   X \<notin> set (not_installed installed ids)"
  by (auto simp add: not_installed_def list_all_iff)

section \<open>Services that do nothing\<close>

lemma step_fresh: "step e (fresh st) ev = fresh st"
  by (cases ev) (simp_all add: fresh_def)

lemma run_fresh: "run e (fresh st) evs = fresh st"
  unfolding run_def by (induction evs) (simp_all add: step_fresh)

lemma inert_suppressed: "inert w \<Longrightarrow> suppressed eid w"
  by (simp add: inert_def suppressed_def)

lemma step_inert: "inert w \<Longrightarrow> inert (step e w ev) \<and> storage (step e w ev) GLOBAL = storage w GLOBAL"
proof (cases ev)
  case (Settled n result)
  assume i: "inert w"
  show ?thesis
  proof (cases "n < length (queries w)")
    case True
    have "list_all is_workspace_query (take n (queries w) @ drop (Suc n) (queries w))"
      using i by (auto simp add: inert_def list_all_iff dest: in_set_takeD in_set_dropD)
    then show ?thesis using i Settled True
      by (cases result; cases "queries w ! n")
         (auto simp add: inert_def suggest_installed_def workspace_installed_def)
  next
    case False then show ?thesis using i Settled by simp
  qed
next
  case (NeverShowAgain n)
  assume "inert w"
  then show ?thesis using NeverShowAgain
    by (auto simp add: inert_def neverAgainAction_def workspaceNeverAgainAction_def
          storageService_store_def split: notification.splits)
qed (auto simp add: inert_def)

lemma run_inert: "inert w \<Longrightarrow> inert (run e w evs) \<and> storage (run e w evs) GLOBAL = storage w GLOBAL"
  unfolding run_def
proof (induction evs arbitrary: w)
  case Nil then show ?case by simp
next
  case (Cons ev evs)
  show ?case using step_inert [OF Cons.prems, of e ev] Cons.IH [of "step e w ev"] by simp
qed

lemma step_no_index:
  "availableRecommendations (service w) = [] \<Longrightarrow>
   recommendations (service (step e w ev)) = recommendations (service w)"
  by (cases ev)
     (auto simp add: event_defs split: option.splits list.splits query.splits notification.splits)

lemma run_no_index:
  "availableRecommendations (service w) = [] \<Longrightarrow>
   recommendations (service (run e w evs)) = recommendations (service w)"
  unfolding run_def
  by (induction evs arbitrary: w) (simp_all add: step_no_index step_available)

lemma constructor_no_tips:
  "extensionTips e = None \<Longrightarrow> \<exists>w. constructor e st = Inr w \<and> inert w \<and> shown w = [] \<and> storage w = st"
  by (auto simp add: constructor_def suggestTips_def fresh_def inert_def suggestWorkspaceRecommendations_def
        is_workspace_query.simps)

lemma constructor_empty_tips:
  "extensionTips e = Some [] \<Longrightarrow> constructor e st = Inr w \<Longrightarrow> availableRecommendations (service w) = []"
  by (auto simp add: constructor_def suggestTips_def fresh_def suggest_models
        suggestWorkspaceRecommendations_same split: if_splits parsed.splits sum.splits)

section \<open>The stored recommendations\<close>

lemma step_snapshot_covers:
  assumes "snapshot_covers loaded w"
  shows "snapshot_covers loaded (step e w ev)"
proof (cases ev)
  case Immediate
  show ?thesis
  proof (cases "immediates w")
    case Nil then show ?thesis using assms Immediate by simp
  next
    case (Cons uri rest)
    then have l: "set loaded \<subseteq> set (recommendations (service w))"
      using assms by (auto simp add: snapshot_covers_def)
    then have "set loaded \<subseteq> set (foldl (suggest_entry e uri) (recommendations (service w))
                 (availableRecommendations (service w)))"
      using suggest_entries_mono by blast
    then show ?thesis using Immediate Cons
      by (simp add: snapshot_covers_def suggest_immediate_def Let_def JSON_roundtrip)
  qed
next
  case (ModelAdded uri)
  then show ?thesis using assms
    by (auto simp add: snapshot_covers_def suggest_def split: option.splits)
next
  case (Settled n result)
  then show ?thesis using assms
    by (auto simp add: snapshot_covers_def suggest_installed_def workspace_installed_def
          split: option.splits query.splits)
next
  case (NeverShowAgain n)
  then show ?thesis using assms
    by (auto simp add: snapshot_covers_def neverAgainAction_def workspaceNeverAgainAction_def
          split: option.splits notification.splits)
next
  case Dispose
  then show ?thesis using assms by (auto simp add: snapshot_covers_def)
qed

lemma run_snapshot_covers: "snapshot_covers loaded w \<Longrightarrow> snapshot_covers loaded (run e w evs)"
  unfolding run_def by (induction evs arbitrary: w) (simp_all add: step_snapshot_covers)

lemma constructor_snapshot_covers:
  assumes "constructor e st = Inr w0"
      and "JSON_parse (storageService_get st ''extensionsAssistant/recommendations'' GLOBAL ''[]'')
           = StringArray loaded"
  shows "snapshot_covers loaded w0"
proof (cases "isEnabled e \<and> extensionTips e \<noteq> None")
  case False
  then show ?thesis using assms
    by (auto simp add: constructor_def suggestTips_def fresh_def snapshot_covers_def
          suggestWorkspaceRecommendations_def split: if_splits)
next
  case True
  then show ?thesis using assms
    by (auto simp add: constructor_def suggestTips_def fresh_def snapshot_covers_def
          suggest_models suggestWorkspaceRecommendations_same set_foldl_set_true
          split: parsed.splits sum.splits)
qed

section \<open>The examples\<close>

lemmas model_defs = constructor_def suggestTips_def fresh_def suggestWorkspaceRecommendations_def
  getWorkspaceRecommendations_def storageService_get_def storageService_getBoolean_def
  storageService_store_def JSON_parse_default group_tip_def set_true_def suggest_entry_def
  not_installed_def getRecommendations_def run_def event_defs

lemma constructor_example: "constructor example_env empty_store = Inr example_world"
  by (simp add: example_match_def example_env_def empty_store_def example_world_def model_defs)


lemma notified_shown: "shown notified_world = [ReallyRecommended ''foo.bar'']"
    by (simp add: example_match_def example_env_def empty_store_def example_world_def a_ts_def
          notified_world_def model_defs)

section \<open>The claims\<close>

text \<open>
  Claim C1. A document is observed, and the callback that \<^verbatim>\<open>_suggest\<close> scheduled for it
  runs. For every entry of the pattern index whose pattern the glob matcher reports to
  match the document's path, every id of the entry is then among \<^verbatim>\<open>getRecommendations()\<close>,
  and stays there whatever happens afterwards.
\<close>

theorem matched_ids_recommended:
  assumes "immediates w = uri # rest"
      and "(pattern, ids) \<in> set (availableRecommendations (service w))"
      and "match e pattern (fsPath uri)"
      and "eid \<in> set ids"
  shows "eid \<in> set (getRecommendations (run e (step e w Immediate) evs))"
proof -
  have "set ids \<subseteq> set (recommendations (service (step e w Immediate)))"
    using assms(1) suggest_entries_matched [OF assms(2) assms(3)]
    by (simp add: suggest_immediate_def Let_def)
  then show ?thesis
    using assms(4) run_recommendations_mono [of "step e w Immediate" e evs]
    by (auto simp add: getRecommendations_def)
qed

theorem matched_ids_recommended_witness:
  "immediates (step example_env example_world (ModelAdded (Some readme))) = readme # []
   \<and> (''**/*.md'', [''foo.bar'']) \<in> set (availableRecommendations
          (service (step example_env example_world (ModelAdded (Some readme)))))
   \<and> match example_env ''**/*.md'' (fsPath readme)
   \<and> ''foo.bar'' \<in> set [''foo.bar'']
   \<and> ''foo.bar'' \<in> set (getRecommendations
          (run example_env
             (step example_env (step example_env example_world (ModelAdded (Some readme))) Immediate)
             [Settled 1 (Some [])]))"
proof -
  let ?w = "step example_env example_world (ModelAdded (Some readme))"
  have h1: "immediates ?w = readme # []"
    by (simp add: example_match_def example_env_def empty_store_def example_world_def
          readme_def model_defs)
  have h2: "(''**/*.md'', [''foo.bar'']) \<in> set (availableRecommendations (service ?w))"
      by (simp add: example_match_def example_env_def empty_store_def example_world_def
            readme_def model_defs)
  have h3: "match example_env ''**/*.md'' (fsPath readme)"
    by (simp add: example_match_def example_env_def empty_store_def example_world_def
          readme_def)
  have h4: "''foo.bar'' \<in> set [''foo.bar'']" by simp
  show ?thesis by (intro conjI h1 h2 h3 h4 matched_ids_recommended [OF h1 h2 h3 h4])
qed




text \<open>
  Claim C3 says that a rejected query is treated as no extension installed, so that the
  messages are still shown. The source passes \<^verbatim>\<open>done\<close> a callback for fulfilment only: in
  the same process, the rejected query shows nothing where the query fulfilled with no
  extension shows the message, in the important gate and in the workspace gate.
\<close>

theorem rejected_query_counterexample:
  "constructor example_env empty_store = Inr example_world
   \<and> shown (run example_env example_world [ModelAdded (Some a_ts), Immediate, Settled 1 None]) = []
   \<and> shown (run example_env example_world [ModelAdded (Some a_ts), Immediate, Settled 1 (Some [])])
       = [ReallyRecommended ''foo.bar'']
   \<and> shown (run example_env example_world [Settled 0 None]) = []
   \<and> shown (run example_env example_world [Settled 0 (Some [])]) = [WorkspaceRecommended]"
    by (simp add: example_match_def example_env_def empty_store_def example_world_def a_ts_def
          model_defs)

text \<open>
  Claim C3, as the code has it. When a query of the installed extensions is rejected, its
  callback does not run: no message is shown for it, and the service, the store and the
  scheduled callbacks are as before.
\<close>

theorem rejected_query_shows_nothing:
  "shown (step e w (Settled n None)) = shown w
   \<and> service (step e w (Settled n None)) = service w
   \<and> storage (step e w (Settled n None)) = storage w
   \<and> immediates (step e w (Settled n None)) = immediates w"
  by simp

theorem rejected_query_shows_nothing_witness:
  "shown (step example_env example_world (Settled 0 None)) = shown example_world
   \<and> service (step example_env example_world (Settled 0 None)) = service example_world
   \<and> storage (step example_env example_world (Settled 0 None)) = storage example_world
   \<and> immediates (step example_env example_world (Settled 0 None)) = immediates example_world"
  by (rule rejected_query_shows_nothing)

text \<open>
  Claim C4. The user runs \<^verbatim>\<open>neverShowAgain\<close> of a message shown for an id: the id is appended
  to the ignore list. Whatever happens afterwards in the process, no further message is
  shown for that id; and a service constructed later on the store the process left, in
  whatever environment, never shows one either.
\<close>

theorem never_again_suppresses:
  assumes "n < length (shown w)" and "shown w ! n = ReallyRecommended eid"
      and "importantRecommendationsIgnoreList (service w) = Some ignoreList"
  shows "importantRecommendationsIgnoreList (service (step e w (NeverShowAgain n)))
           = Some (ignoreList @ [eid])
       \<and> ReallyRecommended eid \<notin> set (emitted e (step e w (NeverShowAgain n)) evs)
       \<and> (\<forall>w'. constructor e' (storage (run e (step e w (NeverShowAgain n)) evs)) = Inr w'
              \<longrightarrow> ReallyRecommended eid \<notin> set (shown (run e' w' evs')))"
proof -
  let ?w1 = "step e w (NeverShowAgain n)"
  have ign: "importantRecommendationsIgnoreList (service ?w1) = Some (ignoreList @ [eid])"
    using assms by (simp add: neverAgainAction_def)
  then have sup: "suppressed eid ?w1" by (simp add: suppressed_def)
  have sto: "stored_ignore eid (storage ?w1)"
    using assms by (simp add: neverAgainAction_def stored_ignore_def JSON_roundtrip)
  have restart: "ReallyRecommended eid \<notin> set (shown (run e' w' evs'))"
    if "constructor e' (storage (run e ?w1 evs)) = Inr w'" for w'
  proof -
    have "suppressed eid w'"
      using that run_stored_ignore [OF sup sto] by (rule constructor_suppressed)
    then have "ReallyRecommended eid \<notin> set (emitted e' w' evs')" by (rule emitted_suppressed)
    then show ?thesis using constructor_shown [OF that] by (simp add: shown_emitted)
  qed
  show ?thesis using ign emitted_suppressed [OF sup] restart by blast
qed

theorem never_again_suppresses_witness:
  "0 < length (shown notified_world)
   \<and> shown notified_world ! 0 = ReallyRecommended ''foo.bar''
   \<and> importantRecommendationsIgnoreList (service notified_world) = Some []
   \<and> importantRecommendationsIgnoreList (service (step example_env notified_world (NeverShowAgain 0)))
       = Some ([] @ [''foo.bar''])
   \<and> ReallyRecommended ''foo.bar'' \<notin> set (emitted example_env
         (step example_env notified_world (NeverShowAgain 0))
         [ModelAdded (Some b_ts), Immediate, Settled 1 (Some [])])
   \<and> constructor example_env
        (storage (run example_env (step example_env notified_world (NeverShowAgain 0)) []))
       = Inr restarted_world
   \<and> ReallyRecommended ''foo.bar'' \<notin> set (shown (run example_env restarted_world
         [ModelAdded (Some b_ts), Immediate, Settled 1 (Some [])]))"
proof -
  have h1: "0 < length (shown notified_world)" by (simp add: notified_shown)
  have h2: "shown notified_world ! 0 = ReallyRecommended ''foo.bar''" by (simp add: notified_shown)
  have h3: "importantRecommendationsIgnoreList (service notified_world) = Some []"
      by (simp add: example_match_def example_env_def empty_store_def example_world_def
            a_ts_def b_ts_def notified_world_def restarted_world_def model_defs)
  have h4: "constructor example_env
        (storage (run example_env (step example_env notified_world (NeverShowAgain 0)) []))
       = Inr restarted_world"
    using h1 h2 h3
    by (simp add: restarted_world_def example_world_def example_env_def run_def constructor_def
          suggestTips_def fresh_def suggestWorkspaceRecommendations_def
          getWorkspaceRecommendations_def neverAgainAction_def JSON_roundtrip group_tip_def)
       (simp add: example_match_def example_env_def empty_store_def example_world_def a_ts_def b_ts_def notified_world_def restarted_world_def model_defs JSON_roundtrip)
  note r = never_again_suppresses [OF h1 h2 h3, of example_env "[ModelAdded (Some b_ts), Immediate, Settled 1 (Some [])]"
               example_env "[ModelAdded (Some b_ts), Immediate, Settled 1 (Some [])]"]
  note r' = never_again_suppresses [OF h1 h2 h3, of example_env "[]"
               example_env "[ModelAdded (Some b_ts), Immediate, Settled 1 (Some [])]"]
  have c1: "importantRecommendationsIgnoreList (service (step example_env notified_world (NeverShowAgain 0)))
       = Some ([] @ [''foo.bar''])"
    using r by blast
  have c2: "ReallyRecommended ''foo.bar'' \<notin> set (emitted example_env
         (step example_env notified_world (NeverShowAgain 0))
         [ModelAdded (Some b_ts), Immediate, Settled 1 (Some [])])"
    using r by blast
  have c3: "ReallyRecommended ''foo.bar'' \<notin> set (shown (run example_env restarted_world
         [ModelAdded (Some b_ts), Immediate, Settled 1 (Some [])]))"
    using r' h4 by blast
  show ?thesis by (intro conjI h1 h2 h3 c1 c2 h4 c3)
qed

text \<open>
  Claim C5 says that the workspace check invoked twice in a process shows one message at
  most. \<^verbatim>\<open>_suggestWorkspaceRecommendations\<close> keeps no record of having run: invoked twice
  before the user dismisses anything, it shows two messages.
\<close>

theorem workspace_check_twice_counterexample:
  "count_list
     (shown (run example_env
        (suggestWorkspaceRecommendations example_env
           (suggestWorkspaceRecommendations example_env (fresh empty_store)))
        [Settled 0 (Some []), Settled 0 (Some [])]))
     WorkspaceRecommended = 2"
  by (simp add: example_match_def example_env_def empty_store_def model_defs)

text \<open>
  Claim C5, as the code has it. The constructor invokes the check once and nothing else
  does, so a process shows one workspace message at most; and when the constructor finds
  the dismissal flag true in the store, the process shows none.
\<close>

theorem one_workspace_message_per_process:
  assumes "constructor e st = Inr w0"
  shows "count_list (shown (run e w0 evs)) WorkspaceRecommended \<le> 1
       \<and> (storageService_getBoolean st ''extensionsAssistant/workspaceRecommendationsIgnore'' WORKSPACE False
            \<longrightarrow> WorkspaceRecommended \<notin> set (shown (run e w0 evs)))"
proof -
  have le: "workspace_budget (run e w0 evs) \<le> workspace_budget w0" by (rule run_workspace_budget)
  have "count_list (shown (run e w0 evs)) WorkspaceRecommended \<le> 1"
    using le constructor_workspace_budget(1) [OF assms] by (simp add: workspace_budget_def)
  moreover have "WorkspaceRecommended \<notin> set (shown (run e w0 evs))"
    if "storageService_getBoolean st ''extensionsAssistant/workspaceRecommendationsIgnore'' WORKSPACE False"
    using le constructor_workspace_budget(2) [OF assms that]
    by (simp add: workspace_budget_def count_list_0_iff)
  ultimately show ?thesis by blast
qed

theorem one_workspace_message_per_process_witness:
  "constructor example_env empty_store = Inr example_world
   \<and> count_list (shown (run example_env example_world [Settled 0 (Some [])])) WorkspaceRecommended \<le> 1
   \<and> shown (run example_env example_world [Settled 0 (Some [])]) = [WorkspaceRecommended]
   \<and> constructor example_env dismissed_store = Inr dismissed_world
   \<and> storageService_getBoolean dismissed_store
        ''extensionsAssistant/workspaceRecommendationsIgnore'' WORKSPACE False
   \<and> WorkspaceRecommended \<notin> set (shown (run example_env dismissed_world [Settled 0 (Some [])]))"
proof -
  have h1: "constructor example_env empty_store = Inr example_world" by (rule constructor_example)
  have h2: "constructor example_env dismissed_store = Inr dismissed_world"
      by (simp add: example_match_def example_env_def empty_store_def example_world_def
            dismissed_store_def dismissed_world_def model_defs)
  have f: "storageService_getBoolean dismissed_store
        ''extensionsAssistant/workspaceRecommendationsIgnore'' WORKSPACE False"
      by (simp add: example_match_def example_env_def empty_store_def example_world_def
            dismissed_store_def dismissed_world_def model_defs)
  have v: "shown (run example_env example_world [Settled 0 (Some [])]) = [WorkspaceRecommended]"
      by (simp add: example_match_def example_env_def empty_store_def example_world_def
            dismissed_store_def dismissed_world_def model_defs)
  have c1: "count_list (shown (run example_env example_world [Settled 0 (Some [])])) WorkspaceRecommended \<le> 1"
    using one_workspace_message_per_process [OF h1, of "[Settled 0 (Some [])]"] by blast
  have c2: "WorkspaceRecommended \<notin> set (shown (run example_env dismissed_world [Settled 0 (Some [])]))"
    using one_workspace_message_per_process [OF h2, of "[Settled 0 (Some [])]"] f by blast
  show ?thesis by (intro conjI h1 c1 v h2 f c2)
qed

text \<open>
  Claim C6. An extension with id \<open>X\<close> is among those the query reports. Then the callback
  of the query shows no message for \<open>X\<close>, whichever gate it belongs to; \<open>X\<close> is not among
  the workspace recommendations left after the filter; and when the workspace message is
  shown, it is for a configured id other than \<open>X\<close> that is not installed.
\<close>

theorem installed_never_notified:
  assumes "ext \<in> set installed"
      and "publisher (manifest ext) @ ''.'' @ name (manifest ext) = X"
  shows "ReallyRecommended X \<notin> set (emitted e w [Settled n (Some installed)])
       \<and> X \<notin> set (not_installed installed allRecommendations)
       \<and> (shown (workspace_installed allRecommendations installed w) \<noteq> shown w \<longrightarrow>
            (\<exists>y \<in> set allRecommendations. y \<noteq> X \<and> y \<in> set (not_installed installed allRecommendations)))"
proof -
  have x: "\<And>ids. X \<notin> set (not_installed installed ids)"
    using assms by (rule not_installed_excludes)
  have "ReallyRecommended X \<notin> set (emitted e w [Settled n (Some installed)])"
    using x by (auto simp add: emitted_def run_def suggest_installed_def workspace_installed_def
                  split: option.splits query.splits)
  moreover have "\<exists>y \<in> set allRecommendations. y \<noteq> X \<and> y \<in> set (not_installed installed allRecommendations)"
    if "shown (workspace_installed allRecommendations installed w) \<noteq> shown w"
  proof -
    have "not_installed installed allRecommendations \<noteq> []"
      using that by (auto simp add: workspace_installed_def split: if_splits)
    then obtain y where y: "y \<in> set (not_installed installed allRecommendations)"
      by (cases "not_installed installed allRecommendations") auto
    then have "y \<noteq> X" using x by auto
    moreover have "y \<in> set allRecommendations" using y by (simp add: not_installed_def)
    ultimately show ?thesis using y by blast
  qed
  ultimately show ?thesis using x by blast
qed

theorem installed_never_notified_witness:
  "ext1 \<in> set [ext1]
   \<and> publisher (manifest ext1) @ ''.'' @ name (manifest ext1) = ''pub.ext1''
   \<and> ReallyRecommended ''pub.ext1'' \<notin> set (emitted example_env example_world [Settled 0 (Some [ext1])])
   \<and> ''pub.ext1'' \<notin> set (not_installed [ext1] [''pub.ext1'', ''pub.ext2''])
   \<and> shown (workspace_installed [''pub.ext1'', ''pub.ext2''] [ext1] example_world) \<noteq> shown example_world
   \<and> (\<exists>y \<in> set [''pub.ext1'', ''pub.ext2''].
         y \<noteq> ''pub.ext1'' \<and> y \<in> set (not_installed [ext1] [''pub.ext1'', ''pub.ext2'']))"
proof -
  have h1: "ext1 \<in> set [ext1]" by simp
  have h2: "publisher (manifest ext1) @ ''.'' @ name (manifest ext1) = ''pub.ext1''"
    by (simp add: ext1_def)
  have h3: "shown (workspace_installed [''pub.ext1'', ''pub.ext2''] [ext1] example_world) \<noteq> shown example_world"
      by (simp add: example_match_def example_env_def empty_store_def example_world_def
            ext1_def model_defs)
  note r = installed_never_notified [OF h1 h2, of example_env example_world 0 "[''pub.ext1'', ''pub.ext2'']"]
  have c1: "ReallyRecommended ''pub.ext1'' \<notin> set (emitted example_env example_world [Settled 0 (Some [ext1])])"
    using r by blast
  have c2: "''pub.ext1'' \<notin> set (not_installed [ext1] [''pub.ext1'', ''pub.ext2''])"
    using r by blast
  have c3: "\<exists>y \<in> set [''pub.ext1'', ''pub.ext2''].
         y \<noteq> ''pub.ext1'' \<and> y \<in> set (not_installed [ext1] [''pub.ext1'', ''pub.ext2''])"
    using r h3 by blast
  show ?thesis by (intro conjI h1 h2 c1 c2 h3 c3)
qed

text \<open>
  Claim C7 says that with the tip map absent or empty the service does nothing and shows
  no message of any kind. Without \<^verbatim>\<open>product.extensionTips\<close> the workspace check still runs,
  and shows its message. An empty tip map is an object, which the test
  \<^verbatim>\<open>!extensionTips\<close> lets through: the service subscribes to the model service and shows
  the important recommendation of a document.
\<close>

theorem absent_or_empty_tips_counterexample:
  "extensionTips no_tips_env = None
   \<and> constructor no_tips_env empty_store = Inr no_tips_world
   \<and> shown (run no_tips_env no_tips_world [Settled 0 (Some [])]) = [WorkspaceRecommended]
   \<and> extensionTips empty_tips_env = Some []
   \<and> constructor empty_tips_env empty_store = Inr empty_tips_world
   \<and> disposables (service empty_tips_world) = [OnModelAdded]
   \<and> shown (run empty_tips_env empty_tips_world
        [ModelAdded (Some a_ts), Immediate, Settled 1 (Some []), Settled 0 (Some [])])
       = [ReallyRecommended ''foo.bar'', WorkspaceRecommended]"
    by (simp add: example_match_def example_env_def empty_store_def example_world_def a_ts_def
          no_tips_env_def no_tips_world_def empty_tips_env_def empty_tips_world_def model_defs)

text \<open>
  Claim C7, as the code has it. Without \<^verbatim>\<open>product.extensionTips\<close>, \<^verbatim>\<open>_suggestTips\<close> returns
  at once: there is no pattern index and no subscription, no callback is ever scheduled,
  \<^verbatim>\<open>getRecommendations()\<close> stays empty, the global scope of the store is never written and
  no important recommendation is ever shown. With an empty tip map the pattern index is
  empty, and \<^verbatim>\<open>getRecommendations()\<close> stays what the constructor read from the store.
\<close>

theorem absent_tips_no_matching:
  "(extensionTips e = None \<longrightarrow>
      (\<exists>w0. constructor e st = Inr w0 \<and>
         availableRecommendations (service (run e w0 evs)) = [] \<and>
         disposables (service (run e w0 evs)) = [] \<and>
         immediates (run e w0 evs) = [] \<and>
         getRecommendations (run e w0 evs) = [] \<and>
         storage (run e w0 evs) GLOBAL = st GLOBAL \<and>
         ReallyRecommended eid \<notin> set (shown (run e w0 evs))))
   \<and> (extensionTips e = Some [] \<longrightarrow>
      (\<forall>w0. constructor e st = Inr w0 \<longrightarrow>
         availableRecommendations (service (run e w0 evs)) = [] \<and>
         getRecommendations (run e w0 evs) = getRecommendations w0))"
proof (intro conjI impI allI)
  assume "extensionTips e = None"
  then obtain w0 where w0: "constructor e st = Inr w0" "inert w0" "shown w0 = []" "storage w0 = st"
    using constructor_no_tips by blast
  have i: "inert (run e w0 evs)" "storage (run e w0 evs) GLOBAL = st GLOBAL"
    using run_inert [OF w0(2), of e evs] w0(4) by simp_all
  have "ReallyRecommended eid \<notin> set (emitted e w0 evs)"
    using inert_suppressed [OF w0(2)] by (rule emitted_suppressed)
  then have "ReallyRecommended eid \<notin> set (shown (run e w0 evs))"
    using w0(3) by (simp add: shown_emitted)
  then show "\<exists>w0. constructor e st = Inr w0 \<and>
         availableRecommendations (service (run e w0 evs)) = [] \<and>
         disposables (service (run e w0 evs)) = [] \<and>
         immediates (run e w0 evs) = [] \<and>
         getRecommendations (run e w0 evs) = [] \<and>
         storage (run e w0 evs) GLOBAL = st GLOBAL \<and>
         ReallyRecommended eid \<notin> set (shown (run e w0 evs))"
    using w0(1) i by (auto simp add: inert_def getRecommendations_def)
next
  fix w0 assume "extensionTips e = Some []" and "constructor e st = Inr w0"
  then have a: "availableRecommendations (service w0) = []" by (rule constructor_empty_tips)
  then show "availableRecommendations (service (run e w0 evs)) = []"
    by (simp add: run_available)
  show "getRecommendations (run e w0 evs) = getRecommendations w0"
    using a by (simp add: getRecommendations_def run_no_index)
qed

theorem absent_tips_no_matching_witness:
  "extensionTips no_tips_env = None
   \<and> (\<exists>w0. constructor no_tips_env empty_store = Inr w0 \<and>
         availableRecommendations (service (run no_tips_env w0 [ModelAdded (Some readme), Immediate])) = [] \<and>
         disposables (service (run no_tips_env w0 [ModelAdded (Some readme), Immediate])) = [] \<and>
         immediates (run no_tips_env w0 [ModelAdded (Some readme), Immediate]) = [] \<and>
         getRecommendations (run no_tips_env w0 [ModelAdded (Some readme), Immediate]) = [] \<and>
         storage (run no_tips_env w0 [ModelAdded (Some readme), Immediate]) GLOBAL = empty_store GLOBAL \<and>
         ReallyRecommended ''foo.bar'' \<notin> set (shown (run no_tips_env w0 [ModelAdded (Some readme), Immediate])))
   \<and> extensionTips empty_tips_env = Some []
   \<and> constructor empty_tips_env seeded_store
       = Inr (seeded_world\<lparr>service := (service seeded_world)\<lparr>availableRecommendations := []\<rparr>\<rparr>)
   \<and> availableRecommendations (service (run empty_tips_env
        (seeded_world\<lparr>service := (service seeded_world)\<lparr>availableRecommendations := []\<rparr>\<rparr>)
        [ModelAdded (Some readme), Immediate])) = []
   \<and> getRecommendations (run empty_tips_env
        (seeded_world\<lparr>service := (service seeded_world)\<lparr>availableRecommendations := []\<rparr>\<rparr>)
        [ModelAdded (Some readme), Immediate])
       = getRecommendations (seeded_world\<lparr>service := (service seeded_world)\<lparr>availableRecommendations := []\<rparr>\<rparr>)"
proof -
  let ?evs = "[ModelAdded (Some readme), Immediate]"
  let ?w = "seeded_world\<lparr>service := (service seeded_world)\<lparr>availableRecommendations := []\<rparr>\<rparr>"
  have h1: "extensionTips no_tips_env = None"
    by (simp add: example_match_def example_env_def empty_store_def example_world_def
          readme_def seeded_store_def no_tips_env_def empty_tips_env_def seeded_world_def)
  have h2: "extensionTips empty_tips_env = Some []"
    by (simp add: example_match_def example_env_def empty_store_def example_world_def
          readme_def seeded_store_def no_tips_env_def empty_tips_env_def seeded_world_def)
  have h3: "constructor empty_tips_env seeded_store = Inr ?w"
      by (simp add: example_match_def example_env_def empty_store_def example_world_def
            readme_def seeded_store_def no_tips_env_def empty_tips_env_def seeded_world_def
            model_defs JSON_roundtrip)
  note r1 = absent_tips_no_matching [of no_tips_env empty_store ?evs "''foo.bar''", THEN conjunct1, THEN mp, OF h1]
  note r2 = absent_tips_no_matching [of empty_tips_env seeded_store ?evs "''foo.bar''", THEN conjunct2, THEN mp, OF h2,
                THEN spec, THEN mp, OF h3]
  show ?thesis by (intro conjI h1 r1 h2 h3 r2 [THEN conjunct1] r2 [THEN conjunct2])
qed

text \<open>
  Claim C8. Once the callback scheduled for a document has run, running the callback for
  a document of the same path again, at once or after any other events, leaves
  \<^verbatim>\<open>getRecommendations()\<close> as it is: the same ids in the same order.
\<close>

theorem observe_twice_same:
  assumes "fsPath uri' = fsPath uri"
  shows "getRecommendations (suggest_immediate e uri' (run e (suggest_immediate e uri w) evs))
       = getRecommendations (run e (suggest_immediate e uri w) evs)"
proof -
  let ?w1 = "suggest_immediate e uri w"
  let ?w2 = "run e ?w1 evs"
  have avail: "availableRecommendations (service ?w2) = availableRecommendations (service w)"
    by (simp add: run_available) (simp add: suggest_immediate_def Let_def)
  have "\<forall>(pattern, ids) \<in> set (availableRecommendations (service w)).
          match e pattern (fsPath uri) \<longrightarrow> set ids \<subseteq> set (recommendations (service ?w2))"
  proof (clarify)
    fix pattern ids x
    assume "(pattern, ids) \<in> set (availableRecommendations (service w))"
       and "match e pattern (fsPath uri)" and "x \<in> set ids"
    then have "x \<in> set (recommendations (service ?w1))"
      using suggest_entries_matched [of pattern ids "availableRecommendations (service w)" e uri
              "recommendations (service w)"]
      by (auto simp add: suggest_immediate_def Let_def)
    then show "x \<in> set (recommendations (service ?w2))"
      using run_recommendations_mono [of ?w1 e evs] by auto
  qed
  then have "foldl (suggest_entry e uri') (recommendations (service ?w2))
               (availableRecommendations (service w)) = recommendations (service ?w2)"
    using assms by (intro suggest_entries_same [where path = "fsPath uri"]) auto
  then show ?thesis
    using avail by (simp add: getRecommendations_def suggest_immediate_def [of e uri' ?w2] Let_def)
qed

theorem observe_twice_same_witness:
  "fsPath \<lparr>fsPath = ''README.md''\<rparr> = fsPath readme
   \<and> getRecommendations (suggest_immediate example_env \<lparr>fsPath = ''README.md''\<rparr>
        (run example_env (suggest_immediate example_env readme example_world) [Settled 1 (Some [])]))
     = getRecommendations
        (run example_env (suggest_immediate example_env readme example_world) [Settled 1 (Some [])])
   \<and> getRecommendations
        (run example_env (suggest_immediate example_env readme example_world) [Settled 1 (Some [])])
     = [''foo.bar'']"
proof -
  have h: "fsPath \<lparr>fsPath = ''README.md''\<rparr> = fsPath readme" by (simp add: readme_def)
  have v: "getRecommendations
        (run example_env (suggest_immediate example_env readme example_world) [Settled 1 (Some [])])
     = [''foo.bar'']"
      by (simp add: example_match_def example_env_def empty_store_def example_world_def
            readme_def model_defs)
  show ?thesis by (intro conjI h v observe_twice_same [OF h])
qed

text \<open>
  Claim C9. In a process started by the constructor, an id among
  \<^verbatim>\<open>getRecommendations()\<close> at some moment is among them at every later moment; and at
  every moment the recommendations in the store are a list of strings that has every id
  the store held when the process started.
\<close>

theorem recommendations_only_grow:
  assumes "constructor e st = Inr w0"
      and "JSON_parse (storageService_get st ''extensionsAssistant/recommendations'' GLOBAL ''[]'')
           = StringArray loaded"
  shows "set (getRecommendations (run e w0 evs)) \<subseteq> set (getRecommendations (run e w0 (evs @ evs')))
       \<and> (\<exists>snapshot. JSON_parse (storageService_get (storage (run e w0 evs))
                          ''extensionsAssistant/recommendations'' GLOBAL ''[]'') = StringArray snapshot
                     \<and> set loaded \<subseteq> set snapshot)"
proof -
  have "set (getRecommendations (run e w0 evs)) \<subseteq> set (getRecommendations (run e w0 (evs @ evs')))"
    using run_recommendations_mono [of "run e w0 evs" e evs']
    by (simp add: getRecommendations_def run_append)
  moreover have "snapshot_covers loaded (run e w0 evs)"
    using constructor_snapshot_covers [OF assms] by (rule run_snapshot_covers)
  ultimately show ?thesis
    by (auto simp add: snapshot_covers_def split: parsed.splits)
qed

theorem recommendations_only_grow_witness:
  "constructor example_env seeded_store = Inr seeded_world
   \<and> JSON_parse (storageService_get seeded_store ''extensionsAssistant/recommendations'' GLOBAL ''[]'')
       = StringArray [''old.ext'']
   \<and> set (getRecommendations (run example_env seeded_world [ModelAdded (Some readme), Immediate]))
       \<subseteq> set (getRecommendations (run example_env seeded_world
                ([ModelAdded (Some readme), Immediate] @ [ModelAdded (Some a_ts), Immediate])))
   \<and> (\<exists>snapshot. JSON_parse (storageService_get
          (storage (run example_env seeded_world [ModelAdded (Some readme), Immediate]))
          ''extensionsAssistant/recommendations'' GLOBAL ''[]'') = StringArray snapshot
        \<and> set [''old.ext''] \<subseteq> set snapshot)
   \<and> getRecommendations (run example_env seeded_world [ModelAdded (Some readme), Immediate])
       = [''old.ext'', ''foo.bar'']"
proof -
  have h1: "constructor example_env seeded_store = Inr seeded_world"
      by (simp add: example_match_def example_env_def empty_store_def example_world_def
            readme_def a_ts_def seeded_store_def seeded_world_def model_defs JSON_roundtrip)
  have h2: "JSON_parse (storageService_get seeded_store ''extensionsAssistant/recommendations'' GLOBAL ''[]'')
       = StringArray [''old.ext'']"
      by (simp add: example_match_def example_env_def empty_store_def example_world_def
            readme_def a_ts_def seeded_store_def seeded_world_def model_defs JSON_roundtrip)
  have v: "getRecommendations (run example_env seeded_world [ModelAdded (Some readme), Immediate])
       = [''old.ext'', ''foo.bar'']"
      by (simp add: example_match_def example_env_def empty_store_def example_world_def
            readme_def a_ts_def seeded_store_def seeded_world_def model_defs)
  note r = recommendations_only_grow [OF h1 h2, of "[ModelAdded (Some readme), Immediate]" "[ModelAdded (Some a_ts), Immediate]"]
  show ?thesis by (intro conjI h1 h2 r [THEN conjunct1] r [THEN conjunct2] v)
qed

text \<open>
  Claim C10. When the gallery service is not enabled, the constructor returns without
  reading the store: the process starts as \<open>fresh\<close> on its store, with no pattern index,
  no subscription, no callback scheduled and no query pending. No event changes it, and
  \<^verbatim>\<open>getRecommendations()\<close> is empty throughout.
\<close>

theorem gallery_disabled_nothing:
  assumes "\<not> isEnabled e"
  shows "constructor e st = Inr (fresh st)
       \<and> run e (fresh st) evs = fresh st
       \<and> getRecommendations (run e (fresh st) evs) = []"
  using assms by (simp add: constructor_def run_fresh) (simp add: getRecommendations_def fresh_def)

theorem gallery_disabled_nothing_witness:
  "\<not> isEnabled disabled_env
   \<and> constructor disabled_env seeded_store = Inr (fresh seeded_store)
   \<and> run disabled_env (fresh seeded_store) [ModelAdded (Some readme), Immediate, Settled 0 (Some [])]
       = fresh seeded_store
   \<and> getRecommendations
        (run disabled_env (fresh seeded_store) [ModelAdded (Some readme), Immediate, Settled 0 (Some [])])
       = []"
proof -
  have h: "\<not> isEnabled disabled_env"
    by (simp add: example_match_def example_env_def empty_store_def readme_def seeded_store_def
          disabled_env_def)
  note r = gallery_disabled_nothing [OF h, of seeded_store "[ModelAdded (Some readme), Immediate, Settled 0 (Some [])]"]
  show ?thesis by (intro conjI h r [THEN conjunct1] r [THEN conjunct2, THEN conjunct1]
                     r [THEN conjunct2, THEN conjunct2])
qed

end
